theory Spec2Isabelle
  imports Main
begin

section \<open>Data model\<close>

text \<open>
  The rows the bookings service reads and writes. Only the columns the service
  touches are kept. Integer columns are JavaScript numbers holding integers and are
  modelled as \<open>int\<close>.
\<close>

datatype TicketStatus = RESERVED | PAID

record enrollment =
  enrollment_id :: int
  enrollment_userId :: int

record ticketType =
  isRemote :: bool
  includesHotel :: bool

record ticket =
  ticket_enrollmentId :: int
  status :: TicketStatus
  TicketType :: ticketType

record room =
  room_id :: int
  capacity :: int
  hotelId :: int

record booking =
  booking_id :: int
  booking_userId :: int
  booking_roomId :: int

text \<open>The two payloads of the service: \<open>BookingWithRoom\<close> and \<open>BookingId\<close>.\<close>

record bookingWithRoom =
  bwr_id :: int
  Room :: room

record bookingIdT =
  resp_bookingId :: int

text \<open>
  The database behind the \<open>prisma\<close> handle: one list per table, in store order,
  and the sequence that numbers new booking rows.
\<close>

record store =
  enrollments :: "enrollment list"
  tickets :: "ticket list"
  rooms :: "room list"
  bookings :: "booking list"
  booking_id_seq :: int

text \<open>
  \<open>forbiddenError()\<close> and \<open>notFoundError()\<close> are the two errors the service throws
  itself; \<open>PrismaError\<close> stands for an exception raised inside a repository call
  (a required relation that is missing, an update of a row that is not there).
\<close>

datatype error = ForbiddenError | NotFoundError | PrismaError

section \<open>Asynchronous calls on the store\<close>

text \<open>
  An \<open>async\<close> function is a function of the store that returns either the thrown
  error or the resolved value, together with the store it leaves behind.
  \<open>await m f\<close> is \<open>const x = await m; f x\<close>: a rejected promise propagates and the
  rest does not run.
\<close>

type_synonym 'a promise = "store \<Rightarrow> (error + 'a) \<times> store"

definition resolve :: "'a \<Rightarrow> 'a promise" where
  "resolve x = (\<lambda>s. (Inr x, s))"

definition throw :: "error \<Rightarrow> 'a promise" where
  "throw e = (\<lambda>s. (Inl e, s))"

definition await :: "'a promise \<Rightarrow> ('a \<Rightarrow> 'b promise) \<Rightarrow> 'b promise" where
  "await m f = (\<lambda>s. case m s of (Inl e, s') \<Rightarrow> (Inl e, s') | (Inr x, s') \<Rightarrow> f x s')"

definition query :: "(store \<Rightarrow> 'a) \<Rightarrow> 'a promise" where
  "query q = (\<lambda>s. (Inr (q s), s))"

section \<open>Repositories\<close>

subsection \<open>Collaborators outside the booking repository\<close>

text \<open>Modelled from the spec: \<open>enrollmentRepository.findWithAddressByUserId\<close> is not
  among the sources; the spec gives
  \<open>findEnrollmentWithAddressByUserId(userId) -> Enrollment | absent\<close>.\<close>

definition findWithAddressByUserId :: "int \<Rightarrow> enrollment option promise" where
  "findWithAddressByUserId userId =
     query (\<lambda>s. find (\<lambda>e. enrollment_userId e = userId) (enrollments s))"

text \<open>Modelled from the spec: \<open>ticketRepository.findTicketByEnrollmentId\<close> is not among
  the sources; the spec gives \<open>findTicketByEnrollmentId(enrollmentId) ->
  Ticket{status, TicketType{isRemote, includesHotel}} | absent\<close>.\<close>

definition findTicketByEnrollmentId :: "int \<Rightarrow> ticket option promise" where
  "findTicketByEnrollmentId enrollmentId =
     query (\<lambda>s. find (\<lambda>t. ticket_enrollmentId t = enrollmentId) (tickets s))"

text \<open>Modelled from the spec: \<open>roomRepository.findRoomById\<close> is not among the sources;
  the spec gives \<open>findRoomById(roomId) -> Room{id, capacity, ...} | absent\<close>.\<close>

definition findRoomById :: "int \<Rightarrow> room option promise" where
  "findRoomById roomId = query (\<lambda>s. find (\<lambda>r. room_id r = roomId) (rooms s))"

subsection \<open>The booking repository\<close>

text \<open>\<open>prisma.booking.findUnique({ where: { id: bookingId } })\<close>\<close>

definition findById :: "int \<Rightarrow> booking option promise" where
  "findById bookingId = query (\<lambda>s. find (\<lambda>b. booking_id b = bookingId) (bookings s))"

text \<open>
  \<open>prisma.booking.findFirst({ where: { userId }, select: { id: true, Room: true } })\<close>:
  the first booking of the user in store order, with the row of its room. The relation
  is required, so a booking whose room row is missing makes the query fail.
\<close>

definition findWithRoomByUserId :: "int \<Rightarrow> bookingWithRoom option promise" where
  "findWithRoomByUserId userId = (\<lambda>s.
     case find (\<lambda>b. booking_userId b = userId) (bookings s) of
       None \<Rightarrow> (Inr None, s)
     | Some b \<Rightarrow>
         (case find (\<lambda>r. room_id r = booking_roomId b) (rooms s) of
            None \<Rightarrow> (Inl PrismaError, s)
          | Some r \<Rightarrow> (Inr (Some \<lparr>bwr_id = booking_id b, Room = r\<rparr>), s)))"

text \<open>
  \<open>prisma.booking.create({ data: { userId, roomId } })\<close>: the new row takes its id from
  the sequence and is returned.
\<close>

definition createByUserIdAndRoomId :: "int \<Rightarrow> int \<Rightarrow> booking promise" where
  "createByUserIdAndRoomId userId roomId = (\<lambda>s.
     let created = \<lparr>booking_id = booking_id_seq s, booking_userId = userId,
                     booking_roomId = roomId\<rparr>
     in (Inr created,
         s\<lparr>bookings := bookings s @ [created], booking_id_seq := booking_id_seq s + 1\<rparr>))"

text \<open>
  \<open>prisma.booking.update({ where: { id: bookingId }, data: { roomId } })\<close>: the row with
  that id gets the new room and is returned; with no such row the call throws.
\<close>

fun update_room :: "int \<Rightarrow> int \<Rightarrow> booking list \<Rightarrow> booking list" where
  "update_room bookingId roomId [] = []"
| "update_room bookingId roomId (b # bs) =
     (if booking_id b = bookingId then b\<lparr>booking_roomId := roomId\<rparr> # bs
      else b # update_room bookingId roomId bs)"

definition updateByBookingIdAndRoomId :: "int \<Rightarrow> int \<Rightarrow> booking promise" where
  "updateByBookingIdAndRoomId bookingId roomId = (\<lambda>s.
     case find (\<lambda>b. booking_id b = bookingId) (bookings s) of
       None \<Rightarrow> (Inl PrismaError, s)
     | Some b \<Rightarrow> (Inr (b\<lparr>booking_roomId := roomId\<rparr>),
                  s\<lparr>bookings := update_room bookingId roomId (bookings s)\<rparr>))"

text \<open>\<open>prisma.booking.count({ where: { roomId } })\<close>\<close>

definition countBookingsByRoomId :: "int \<Rightarrow> int promise" where
  "countBookingsByRoomId roomId =
     query (\<lambda>s. int (length (filter (\<lambda>b. booking_roomId b = roomId) (bookings s))))"

section \<open>The bookings service\<close>

definition isUserAllowed :: "int \<Rightarrow> bool promise" where
  "isUserAllowed userId =
     await (findWithAddressByUserId userId) (\<lambda>enrollment.
       case enrollment of
         None \<Rightarrow> resolve False
       | Some enrollment \<Rightarrow>
           await (findTicketByEnrollmentId (enrollment_id enrollment)) (\<lambda>ticket.
             case ticket of
               None \<Rightarrow> resolve False
             | Some ticket \<Rightarrow>
                 (let isHostableTicketType =
                        (\<not> isRemote (TicketType ticket) \<and> includesHotel (TicketType ticket));
                      isTicketPaid = (status ticket = PAID)
                  in if \<not> (isHostableTicketType \<and> isTicketPaid) then resolve False
                     else resolve True)))"

definition isRoomFull :: "room \<Rightarrow> bool promise" where
  "isRoomFull room =
     await (countBookingsByRoomId (room_id room)) (\<lambda>bookingsOnRoom.
       let isFull = (bookingsOnRoom = capacity room) in resolve isFull)"

definition getBooking :: "int \<Rightarrow> bookingWithRoom promise" where
  "getBooking userId =
     await (isUserAllowed userId) (\<lambda>allowed.
       if \<not> allowed then throw ForbiddenError
       else await (findWithRoomByUserId userId) (\<lambda>bookingWithRoom.
         case bookingWithRoom of
           None \<Rightarrow> throw NotFoundError
         | Some bwr \<Rightarrow> resolve bwr))"

definition createBooking :: "int \<Rightarrow> int \<Rightarrow> bookingIdT promise" where
  "createBooking userId roomId =
     (if roomId < 1 then throw ForbiddenError
      else await (isUserAllowed userId) (\<lambda>allowed.
        if \<not> allowed then throw ForbiddenError
        else await (findWithRoomByUserId userId) (\<lambda>bookingWithRoom.
          if bookingWithRoom \<noteq> None then throw ForbiddenError
          else await (findRoomById roomId) (\<lambda>room.
            case room of
              None \<Rightarrow> throw NotFoundError
            | Some room \<Rightarrow>
                await (isRoomFull room) (\<lambda>full.
                  if full then throw ForbiddenError
                  else await (createByUserIdAndRoomId userId roomId) (\<lambda>createdBooking.
                    resolve \<lparr>resp_bookingId = booking_id createdBooking\<rparr>))))))"

definition updateBooking :: "int \<Rightarrow> int \<Rightarrow> int \<Rightarrow> bookingIdT promise" where
  "updateBooking userId bookingId roomId =
     (if roomId < 1 \<or> bookingId < 1 then throw ForbiddenError
      else await (isUserAllowed userId) (\<lambda>allowed.
        if \<not> allowed then throw ForbiddenError
        else await (findRoomById roomId) (\<lambda>room.
          await (findById bookingId) (\<lambda>booking.
            case (room, booking) of
              (Some room, Some booking) \<Rightarrow>
                await (findWithRoomByUserId userId) (\<lambda>userBooking.
                  let isBookingIdFromUser =
                        (case userBooking of None \<Rightarrow> False
                         | Some ub \<Rightarrow> bwr_id ub = bookingId)
                  in if \<not> isBookingIdFromUser then throw ForbiddenError
                     else let isRoomTheSame = (booking_roomId booking = roomId)
                          in if isRoomTheSame then throw ForbiddenError
                             else await (isRoomFull room) (\<lambda>full.
                               if full then throw ForbiddenError
                               else await (updateByBookingIdAndRoomId bookingId roomId)
                                      (\<lambda>updatedBooking.
                                         resolve \<lparr>resp_bookingId = bookingId\<rparr>)))
            | _ \<Rightarrow> throw NotFoundError))))"

section \<open>Reading the store\<close>

text \<open>What an operation sees of the store: whether \<open>isUserAllowed\<close> answers \<open>true\<close>,
  how many bookings reference a room, and the bookings of a user in store order.\<close>

definition userAllowed :: "store \<Rightarrow> int \<Rightarrow> bool" where
  "userAllowed s userId = (fst (isUserAllowed userId s) = Inr True)"

definition bookingsOnRoom :: "store \<Rightarrow> int \<Rightarrow> nat" where
  "bookingsOnRoom s roomId = length (filter (\<lambda>b. booking_roomId b = roomId) (bookings s))"

definition bookingsOfUser :: "store \<Rightarrow> int \<Rightarrow> booking list" where
  "bookingsOfUser s userId = filter (\<lambda>b. booking_userId b = userId) (bookings s)"

text \<open>
  Constraints of the database schema: \<open>id\<close> is the primary key of \<open>Booking\<close> and of
  \<open>Room\<close> (the repository addresses rows with \<open>findUnique\<close> and \<open>update\<close> by id), and
  \<open>Booking.roomId\<close> references a \<open>Room\<close> row (the relation selected by
  \<open>findWithRoomByUserId\<close>, typed \<open>Room: Room\<close>).
\<close>

definition pk_booking :: "store \<Rightarrow> bool" where
  "pk_booking s = distinct (map booking_id (bookings s))"

definition pk_room :: "store \<Rightarrow> bool" where
  "pk_room s = distinct (map room_id (rooms s))"

definition fk_booking_room :: "store \<Rightarrow> bool" where
  "fk_booking_room s =
     (\<forall>b \<in> set (bookings s). booking_roomId b \<in> set (map room_id (rooms s)))"

text \<open>
  Room ids are generated keys and start at 1: an id below 1 names no room, which is why
  the service rejects \<open>roomId < 1\<close> as a malformed target before any lookup.
\<close>

definition room_ids_positive :: "store \<Rightarrow> bool" where
  "room_ids_positive s = (\<forall>r \<in> set (rooms s). 1 \<le> room_id r)"

text \<open>A store that meets the schema; new booking ids come from a sequence that is ahead
  of every id in use.\<close>

definition wf_store :: "store \<Rightarrow> bool" where
  "wf_store s = (pk_booking s \<and> pk_room s \<and> fk_booking_room s \<and>
                 (\<forall>b \<in> set (bookings s). booking_id b < booking_id_seq s))"

text \<open>Invariant I2: no room holds more bookings than its capacity.\<close>

definition capacity_inv :: "store \<Rightarrow> bool" where
  "capacity_inv s = (\<forall>r \<in> set (rooms s). int (bookingsOnRoom s (room_id r)) \<le> capacity r)"

subsection \<open>Example stores\<close>

definition paid_hotel_ticket :: "int \<Rightarrow> ticket" where
  "paid_hotel_ticket enrollmentId =
     \<lparr>ticket_enrollmentId = enrollmentId, status = PAID,
      TicketType = \<lparr>isRemote = False, includesHotel = True\<rparr>\<rparr>"

text \<open>Users 1 and 2 are eligible; user 2 holds booking 1 in room 1, which is then full;
  room 2 has two free places.\<close>

definition demo_store :: store where
  "demo_store =
     \<lparr>enrollments = [\<lparr>enrollment_id = 10, enrollment_userId = 1\<rparr>,
                     \<lparr>enrollment_id = 20, enrollment_userId = 2\<rparr>],
      tickets = [paid_hotel_ticket 10, paid_hotel_ticket 20],
      rooms = [\<lparr>room_id = 1, capacity = 1, hotelId = 7\<rparr>,
               \<lparr>room_id = 2, capacity = 2, hotelId = 7\<rparr>],
      bookings = [\<lparr>booking_id = 1, booking_userId = 2, booking_roomId = 1\<rparr>],
      booking_id_seq = 2\<rparr>"

text \<open>Room 1 (capacity 1) already holds two bookings; user 1 is eligible and has no
  booking, user 2 is eligible and holds booking 3 in room 2.\<close>

definition overbooked_store :: store where
  "overbooked_store =
     \<lparr>enrollments = [\<lparr>enrollment_id = 10, enrollment_userId = 1\<rparr>,
                     \<lparr>enrollment_id = 20, enrollment_userId = 2\<rparr>],
      tickets = [paid_hotel_ticket 10, paid_hotel_ticket 20],
      rooms = [\<lparr>room_id = 1, capacity = 1, hotelId = 7\<rparr>,
               \<lparr>room_id = 2, capacity = 2, hotelId = 7\<rparr>],
      bookings = [\<lparr>booking_id = 1, booking_userId = 3, booking_roomId = 1\<rparr>,
                  \<lparr>booking_id = 2, booking_userId = 4, booking_roomId = 1\<rparr>,
                  \<lparr>booking_id = 3, booking_userId = 2, booking_roomId = 2\<rparr>],
      booking_id_seq = 4\<rparr>"

section \<open>Running the service\<close>

lemmas promise_defs = resolve_def throw_def await_def query_def

lemmas run_defs = getBooking_def createBooking_def updateBooking_def isUserAllowed_def
  isRoomFull_def findWithAddressByUserId_def findTicketByEnrollmentId_def findRoomById_def
  findById_def findWithRoomByUserId_def createByUserIdAndRoomId_def
  updateByBookingIdAndRoomId_def countBookingsByRoomId_def promise_defs Let_def

lemmas demo_defs = demo_store_def overbooked_store_def paid_hotel_ticket_def

lemma find_None_filter: "find P xs = None \<longleftrightarrow> filter P xs = []"
  by (induction xs) auto

lemma find_Some_hd_filter:
  "find P xs = Some x \<Longrightarrow> x = hd (filter P xs) \<and> filter P xs \<noteq> []"
  by (induction xs) (auto split: if_splits)

lemma find_Some_mem: "find P xs = Some x \<Longrightarrow> x \<in> set xs \<and> P x"
  by (induction xs) (auto split: if_splits)

text \<open>The checkers always resolve, and leave the store as it is.\<close>

lemma isUserAllowed_run: "isUserAllowed userId s = (Inr (userAllowed s userId), s)"
  by (simp add: userAllowed_def isUserAllowed_def findWithAddressByUserId_def
      findTicketByEnrollmentId_def promise_defs Let_def split: option.splits)

lemma isRoomFull_run:
  "isRoomFull room s = (Inr (int (bookingsOnRoom s (room_id room)) = capacity room), s)"
  by (simp add: isRoomFull_def countBookingsByRoomId_def bookingsOnRoom_def promise_defs)

lemma findWithRoomByUserId_store: "snd (findWithRoomByUserId userId s) = s"
  by (simp add: findWithRoomByUserId_def split: option.splits)

lemma findWithRoomByUserId_run:
  "findWithRoomByUserId userId s = (fst (findWithRoomByUserId userId s), s)"
  by (metis findWithRoomByUserId_store prod.collapse)

lemma findWithRoomByUserId_None:
  "fst (findWithRoomByUserId userId s) = Inr None \<longleftrightarrow> bookingsOfUser s userId = []"
  by (auto simp: findWithRoomByUserId_def bookingsOfUser_def find_None_filter[symmetric]
      split: option.splits)

lemma findWithRoomByUserId_fk:
  assumes "fk_booking_room s" "bookingsOfUser s userId \<noteq> []"
  shows "\<exists>r. r \<in> set (rooms s) \<and> room_id r = booking_roomId (hd (bookingsOfUser s userId)) \<and>
             fst (findWithRoomByUserId userId s) =
               Inr (Some \<lparr>bwr_id = booking_id (hd (bookingsOfUser s userId)), Room = r\<rparr>)"
proof -
  from assms(2) obtain b where b: "find (\<lambda>b. booking_userId b = userId) (bookings s) = Some b"
    by (auto simp: bookingsOfUser_def find_None_filter[symmetric])
  then have hd: "b = hd (bookingsOfUser s userId)" and mem: "b \<in> set (bookings s)"
    by (auto simp: bookingsOfUser_def dest: find_Some_hd_filter find_Some_mem)
  from mem assms(1) have "booking_roomId b \<in> set (map room_id (rooms s))"
    by (simp add: fk_booking_room_def)
  then have "find (\<lambda>r. room_id r = booking_roomId b) (rooms s) \<noteq> None"
    by (auto simp: find_None_iff)
  then obtain r where r: "find (\<lambda>r. room_id r = booking_roomId b) (rooms s) = Some r"
    by auto
  then have "r \<in> set (rooms s)" "room_id r = booking_roomId b"
    by (auto dest: find_Some_mem)
  with b r hd show ?thesis
    by (auto simp: findWithRoomByUserId_def)
qed

lemma userAllowed_no_enrollment:
  "fst (findWithAddressByUserId userId s) = Inr None \<Longrightarrow> \<not> userAllowed s userId"
  by (simp add: userAllowed_def isUserAllowed_def promise_defs findWithAddressByUserId_def)

text \<open>Each operation as one chain of gates over the store it was given.\<close>

lemma getBooking_unfold:
  "getBooking userId s =
     (if \<not> userAllowed s userId then (Inl ForbiddenError, s)
      else case fst (findWithRoomByUserId userId s) of
             Inl e \<Rightarrow> (Inl e, s)
           | Inr None \<Rightarrow> (Inl NotFoundError, s)
           | Inr (Some bwr) \<Rightarrow> (Inr bwr, s))"
  unfolding getBooking_def await_def isUserAllowed_run
  by (subst findWithRoomByUserId_run)
     (simp add: throw_def resolve_def split: sum.splits option.splits)

lemma createBooking_unfold:
  "createBooking userId roomId s =
     (if roomId < 1 then (Inl ForbiddenError, s)
      else if \<not> userAllowed s userId then (Inl ForbiddenError, s)
      else case fst (findWithRoomByUserId userId s) of
             Inl e \<Rightarrow> (Inl e, s)
           | Inr (Some bwr) \<Rightarrow> (Inl ForbiddenError, s)
           | Inr None \<Rightarrow>
              (case find (\<lambda>r. room_id r = roomId) (rooms s) of
                 None \<Rightarrow> (Inl NotFoundError, s)
               | Some room \<Rightarrow>
                   if int (bookingsOnRoom s roomId) = capacity room then (Inl ForbiddenError, s)
                   else (Inr \<lparr>resp_bookingId = booking_id_seq s\<rparr>,
                         s\<lparr>bookings := bookings s @
                              [\<lparr>booking_id = booking_id_seq s, booking_userId = userId,
                                booking_roomId = roomId\<rparr>],
                           booking_id_seq := booking_id_seq s + 1\<rparr>)))"
  unfolding createBooking_def await_def isUserAllowed_run isRoomFull_run
  apply (subst findWithRoomByUserId_run)
  apply (simp add: throw_def resolve_def findRoomById_def query_def
      createByUserIdAndRoomId_def Let_def split: sum.splits option.splits)
  apply (auto dest: find_Some_mem)
  done

lemma updateBooking_unfold:
  "updateBooking userId bookingId roomId s =
     (if roomId < 1 \<or> bookingId < 1 then (Inl ForbiddenError, s)
      else if \<not> userAllowed s userId then (Inl ForbiddenError, s)
      else case (find (\<lambda>r. room_id r = roomId) (rooms s),
                 find (\<lambda>b. booking_id b = bookingId) (bookings s)) of
             (Some room, Some booking) \<Rightarrow>
               (case fst (findWithRoomByUserId userId s) of
                  Inl e \<Rightarrow> (Inl e, s)
                | Inr userBooking \<Rightarrow>
                    if \<not> (case userBooking of None \<Rightarrow> False
                          | Some ub \<Rightarrow> bwr_id ub = bookingId)
                    then (Inl ForbiddenError, s)
                    else if booking_roomId booking = roomId then (Inl ForbiddenError, s)
                    else if int (bookingsOnRoom s roomId) = capacity room
                    then (Inl ForbiddenError, s)
                    else (Inr \<lparr>resp_bookingId = bookingId\<rparr>,
                          s\<lparr>bookings := update_room bookingId roomId (bookings s)\<rparr>))
           | _ \<Rightarrow> (Inl NotFoundError, s))"
  unfolding updateBooking_def await_def isUserAllowed_run isRoomFull_run
  apply (subst findWithRoomByUserId_run)
  apply (simp add: throw_def resolve_def findRoomById_def findById_def query_def
      updateByBookingIdAndRoomId_def Let_def split: sum.splits option.splits)
  apply (auto dest: find_Some_mem)
  done

section \<open>Eligibility checker\<close>

text \<open>
  C5. \<open>isUserAllowed(userId)\<close> always resolves (it never throws), leaves the store as
  it found it, and answers \<open>true\<close> exactly when the enrollment of the user exists, a
  ticket of that enrollment exists, the ticket type is not remote, the ticket type
  includes the hotel and the ticket status is \<open>PAID\<close>. A missing enrollment or ticket
  gives \<open>false\<close>.
\<close>

theorem isUserAllowed_iff:
  "isUserAllowed userId s =
     (Inr (\<exists>e t. fst (findWithAddressByUserId userId s) = Inr (Some e) \<and>
                 fst (findTicketByEnrollmentId (enrollment_id e) s) = Inr (Some t) \<and>
                 \<not> isRemote (TicketType t) \<and> includesHotel (TicketType t) \<and> status t = PAID),
      s)"
  by (auto simp: isUserAllowed_def findWithAddressByUserId_def
      findTicketByEnrollmentId_def promise_defs Let_def split: option.splits)

theorem isUserAllowed_iff_witness:
  "isUserAllowed 1 demo_store = (Inr True, demo_store) \<and>
   isUserAllowed 3 demo_store = (Inr False, demo_store)"
  using isUserAllowed_iff[of 1 demo_store] isUserAllowed_iff[of 3 demo_store]
  by (simp add: findWithAddressByUserId_def findTicketByEnrollmentId_def query_def demo_defs)

section \<open>Fetching the current booking\<close>

text \<open>
  C9. \<open>getBooking(userId)\<close>: when \<open>isUserAllowed(userId)\<close> is false it fails with
  \<open>ForbiddenError\<close> (AuthorizationDenied); otherwise, when the user has no booking, it
  fails with \<open>NotFoundError\<close>; otherwise it returns \<open>{ id, Room }\<close> with the id of the
  user's first booking and the row of the room that booking references. The store is
  left as it was in all three cases.
\<close>

theorem getBooking_behaviour:
  "(\<not> userAllowed s userId \<longrightarrow> getBooking userId s = (Inl ForbiddenError, s)) \<and>
   (userAllowed s userId \<and> bookingsOfUser s userId = [] \<longrightarrow>
      getBooking userId s = (Inl NotFoundError, s)) \<and>
   (userAllowed s userId \<and> bookingsOfUser s userId \<noteq> [] \<and> fk_booking_room s \<longrightarrow>
      (\<exists>r. r \<in> set (rooms s) \<and> room_id r = booking_roomId (hd (bookingsOfUser s userId)) \<and>
        getBooking userId s =
          (Inr \<lparr>bwr_id = booking_id (hd (bookingsOfUser s userId)), Room = r\<rparr>, s)))"
proof (intro conjI impI)
  show "getBooking userId s = (Inl ForbiddenError, s)" if "\<not> userAllowed s userId"
    using that by (simp add: getBooking_unfold)
next
  assume "userAllowed s userId \<and> bookingsOfUser s userId = []"
  then show "getBooking userId s = (Inl NotFoundError, s)"
    using findWithRoomByUserId_None[of userId s] by (simp add: getBooking_unfold)
next
  assume a: "userAllowed s userId \<and> bookingsOfUser s userId \<noteq> [] \<and> fk_booking_room s"
  then obtain r where "r \<in> set (rooms s)"
      "room_id r = booking_roomId (hd (bookingsOfUser s userId))"
      "fst (findWithRoomByUserId userId s) =
         Inr (Some \<lparr>bwr_id = booking_id (hd (bookingsOfUser s userId)), Room = r\<rparr>)"
    using findWithRoomByUserId_fk by blast
  with a show "\<exists>r. r \<in> set (rooms s) \<and>
        room_id r = booking_roomId (hd (bookingsOfUser s userId)) \<and>
        getBooking userId s =
          (Inr \<lparr>bwr_id = booking_id (hd (bookingsOfUser s userId)), Room = r\<rparr>, s)"
    by (auto simp: getBooking_unfold)
qed

theorem getBooking_behaviour_witness:
  "\<not> userAllowed demo_store 3 \<and> getBooking 3 demo_store = (Inl ForbiddenError, demo_store) \<and>
   userAllowed demo_store 1 \<and> bookingsOfUser demo_store 1 = [] \<and>
   getBooking 1 demo_store = (Inl NotFoundError, demo_store) \<and>
   userAllowed demo_store 2 \<and> bookingsOfUser demo_store 2 \<noteq> [] \<and> fk_booking_room demo_store \<and>
   getBooking 2 demo_store =
     (Inr \<lparr>bwr_id = 1, Room = \<lparr>room_id = 1, capacity = 1, hotelId = 7\<rparr>\<rparr>, demo_store)"
proof -
  have a3: "\<not> userAllowed demo_store 3" and a1: "userAllowed demo_store 1"
    and a2: "userAllowed demo_store 2"
    by (simp_all add: userAllowed_def run_defs demo_defs)
  have b1: "bookingsOfUser demo_store 1 = []"
    and b2: "bookingsOfUser demo_store 2 =
               [\<lparr>booking_id = 1, booking_userId = 2, booking_roomId = 1\<rparr>]"
    by (simp_all add: bookingsOfUser_def demo_defs)
  have fk: "fk_booking_room demo_store"
    by (simp add: fk_booking_room_def demo_defs)
  have r: "rooms demo_store = [\<lparr>room_id = 1, capacity = 1, hotelId = 7\<rparr>,
                                \<lparr>room_id = 2, capacity = 2, hotelId = 7\<rparr>]"
    by (simp add: demo_defs)
  from getBooking_behaviour[of demo_store 3] a3
  have g3: "getBooking 3 demo_store = (Inl ForbiddenError, demo_store)" by simp
  from getBooking_behaviour[of demo_store 1] a1 b1
  have g1: "getBooking 1 demo_store = (Inl NotFoundError, demo_store)" by simp
  from getBooking_behaviour[of demo_store 2] a2 b2 fk r
  have g2: "getBooking 2 demo_store =
     (Inr \<lparr>bwr_id = 1, Room = \<lparr>room_id = 1, capacity = 1, hotelId = 7\<rparr>\<rparr>, demo_store)"
    by auto
  from a3 a1 a2 b1 b2 fk g1 g2 g3 show ?thesis by simp
qed

section \<open>Failure leaves the store untouched\<close>

text \<open>
  C6. For each of \<open>getBooking\<close>, \<open>createBooking\<close> and \<open>updateBooking\<close>, every input and
  every store: when the operation fails (with \<open>ForbiddenError\<close>, \<open>NotFoundError\<close> or any
  other error) the store it leaves is the store it was given, in every table. The only
  writing call of an operation is its last one, after every gate.
\<close>

theorem atomicity_on_failure:
  "(fst (getBooking userId s) = Inl e \<longrightarrow> snd (getBooking userId s) = s) \<and>
   (fst (createBooking userId roomId s) = Inl e \<longrightarrow> snd (createBooking userId roomId s) = s) \<and>
   (fst (updateBooking userId bookingId roomId s) = Inl e \<longrightarrow>
      snd (updateBooking userId bookingId roomId s) = s)"
proof (intro conjI impI)
  show "snd (getBooking userId s) = s"
    by (simp add: getBooking_unfold split: sum.splits option.splits)
next
  assume "fst (createBooking userId roomId s) = Inl e"
  then show "snd (createBooking userId roomId s) = s"
    by (simp add: createBooking_unfold split: sum.splits option.splits if_splits)
next
  assume "fst (updateBooking userId bookingId roomId s) = Inl e"
  then show "snd (updateBooking userId bookingId roomId s) = s"
    by (auto simp: updateBooking_unfold split: sum.splits option.splits if_splits)
qed

theorem atomicity_on_failure_witness:
  "fst (getBooking 1 demo_store) = Inl NotFoundError \<and>
   snd (getBooking 1 demo_store) = demo_store \<and>
   fst (createBooking 1 99 demo_store) = Inl NotFoundError \<and>
   snd (createBooking 1 99 demo_store) = demo_store \<and>
   fst (updateBooking 1 1 99 demo_store) = Inl NotFoundError \<and>
   snd (updateBooking 1 1 99 demo_store) = demo_store"
proof -
  have g: "fst (getBooking 1 demo_store) = Inl NotFoundError"
    by (simp add: run_defs demo_defs)
  have c: "fst (createBooking 1 99 demo_store) = Inl NotFoundError"
    by (simp add: run_defs demo_defs)
  have u: "fst (updateBooking 1 1 99 demo_store) = Inl NotFoundError"
    by (simp add: run_defs demo_defs)
  from g c u
    atomicity_on_failure[where userId = 1 and s = demo_store and e = NotFoundError
      and roomId = 99 and bookingId = 1]
  show ?thesis by blast
qed

section \<open>The user id is not validated\<close>

text \<open>
  C10. No operation checks \<open>userId\<close>: it goes into the enrollment lookup as it is, zero
  and negative values included. For every \<open>userId\<close> with no enrollment, each of
  \<open>getBooking\<close>, \<open>createBooking\<close> and \<open>updateBooking\<close> fails with \<open>ForbiddenError\<close>, whatever
  the other arguments, and leaves the store as it was.
\<close>

theorem userId_not_validated:
  assumes "fst (findWithAddressByUserId userId s) = Inr None"
  shows "getBooking userId s = (Inl ForbiddenError, s) \<and>
         createBooking userId roomId s = (Inl ForbiddenError, s) \<and>
         updateBooking userId bookingId roomId s = (Inl ForbiddenError, s)"
  using userAllowed_no_enrollment[OF assms]
  by (simp add: getBooking_unfold createBooking_unfold updateBooking_unfold)

theorem userId_not_validated_witness:
  "fst (findWithAddressByUserId (- 5) demo_store) = Inr None \<and>
   getBooking (- 5) demo_store = (Inl ForbiddenError, demo_store) \<and>
   createBooking (- 5) 2 demo_store = (Inl ForbiddenError, demo_store) \<and>
   updateBooking (- 5) 1 2 demo_store = (Inl ForbiddenError, demo_store)"
proof -
  have h: "fst (findWithAddressByUserId (- 5) demo_store) = Inr None"
    by (simp add: findWithAddressByUserId_def query_def demo_defs)
  from h userId_not_validated[OF h, of 2 1] show ?thesis by simp
qed

section \<open>Changing the room of a booking\<close>

subsection \<open>A move to the same room\<close>

lemma findWithRoomByUserId_resolves:
  assumes "fk_booking_room s"
  shows "\<exists>x. fst (findWithRoomByUserId userId s) = Inr x"
proof (cases "bookingsOfUser s userId = []")
  case True
  then show ?thesis using findWithRoomByUserId_None by blast
next
  case False
  with assms show ?thesis using findWithRoomByUserId_fk by blast
qed

lemma fk_room_found:
  assumes "fk_booking_room s" "find (\<lambda>b. booking_id b = bookingId) (bookings s) = Some b"
  shows "\<exists>r. find (\<lambda>r. room_id r = booking_roomId b) (rooms s) = Some r"
proof -
  from assms(2) have "b \<in> set (bookings s)" by (simp add: find_Some_mem)
  with assms(1) have "booking_roomId b \<in> set (map room_id (rooms s))"
    by (simp add: fk_booking_room_def)
  then have "find (\<lambda>r. room_id r = booking_roomId b) (rooms s) \<noteq> None"
    by (auto simp: find_None_iff)
  then show ?thesis by auto
qed

text \<open>
  C8. For every user and every \<open>bookingId\<close> that identifies an existing booking,
  \<open>updateBooking(u, bookingId, r)\<close> with \<open>r\<close> the current room of that booking fails with
  \<open>ForbiddenError\<close> (AuthorizationDenied), never succeeds and never reports
  \<open>NotFoundError\<close>, and leaves the store as it was. The store meets the foreign key of
  the schema: the room a booking references exists.
\<close>

theorem noop_move_rejected:
  assumes fk: "fk_booking_room s"
    and b: "fst (findById bookingId s) = Inr (Some b)"
  shows "updateBooking userId bookingId (booking_roomId b) s = (Inl ForbiddenError, s)"
proof -
  from b have fb: "find (\<lambda>b. booking_id b = bookingId) (bookings s) = Some b"
    by (simp add: findById_def query_def)
  from fk_room_found[OF fk fb] obtain r
    where r: "find (\<lambda>r. room_id r = booking_roomId b) (rooms s) = Some r" by blast
  from findWithRoomByUserId_resolves[OF fk] obtain x
    where x: "fst (findWithRoomByUserId userId s) = Inr x" by blast
  show ?thesis
    by (simp add: updateBooking_unfold fb r x)
qed

theorem noop_move_rejected_witness:
  "fk_booking_room demo_store \<and>
   fst (findById 1 demo_store) =
     Inr (Some \<lparr>booking_id = 1, booking_userId = 2, booking_roomId = 1\<rparr>) \<and>
   updateBooking 2 1 1 demo_store = (Inl ForbiddenError, demo_store)"
proof -
  have fk: "fk_booking_room demo_store"
    by (simp add: fk_booking_room_def demo_defs)
  have b: "fst (findById 1 demo_store) =
     Inr (Some \<lparr>booking_id = 1, booking_userId = 2, booking_roomId = 1\<rparr>)"
    by (simp add: findById_def query_def demo_defs)
  from fk b noop_move_rejected[OF fk b, of 2] show ?thesis by simp
qed

subsection \<open>A booking of another user\<close>

lemma pk_booking_same:
  assumes "pk_booking s" "b \<in> set (bookings s)" "b' \<in> set (bookings s)"
    "booking_id b = booking_id b'"
  shows "b = b'"
  using assms by (auto simp: pk_booking_def distinct_map dest: inj_onD)

text \<open>
  C2, as the code has it. Let \<open>bookingId\<close> identify an existing booking that does not
  belong to \<open>userId\<close>, in a store that meets the schema (booking ids unique, the room of
  every booking exists). Then \<open>updateBooking(userId, bookingId, roomId)\<close> always fails and
  leaves the store as it was. It fails with \<open>NotFoundError\<close> when the first two gates
  pass (\<open>roomId \<ge> 1\<close>, \<open>bookingId \<ge> 1\<close>, the user is allowed) and \<open>roomId\<close> identifies no
  room: the existence of room and booking is checked before the ownership. In every
  other case, in particular whenever \<open>roomId\<close> identifies an existing room, full or not,
  it fails with \<open>ForbiddenError\<close> (AuthorizationDenied).
\<close>

theorem ownership_failure:
  assumes pk: "pk_booking s" and fk: "fk_booking_room s"
    and b: "fst (findById bookingId s) = Inr (Some b)"
    and other: "booking_userId b \<noteq> userId"
  shows "updateBooking userId bookingId roomId s =
           (if 1 \<le> roomId \<and> 1 \<le> bookingId \<and> userAllowed s userId \<and>
               fst (findRoomById roomId s) = Inr None
            then (Inl NotFoundError, s) else (Inl ForbiddenError, s))"
proof -
  from b have fb: "find (\<lambda>b. booking_id b = bookingId) (bookings s) = Some b"
    by (simp add: findById_def query_def)
  then have bmem: "b \<in> set (bookings s)" and bid: "booking_id b = bookingId"
    by (auto dest: find_Some_mem)
  have notmine: "\<not> (case x of None \<Rightarrow> False | Some ub \<Rightarrow> bwr_id ub = bookingId)"
    if x: "fst (findWithRoomByUserId userId s) = Inr x" for x
  proof (cases "bookingsOfUser s userId = []")
    case True
    with x show ?thesis using findWithRoomByUserId_None[of userId s] by simp
  next
    case False
    let ?h = "hd (bookingsOfUser s userId)"
    from False have "?h \<in> set (bookingsOfUser s userId)" by simp
    then have hmem: "?h \<in> set (bookings s)" and hu: "booking_userId ?h = userId"
      by (simp_all add: bookingsOfUser_def)
    from hu other have "?h \<noteq> b" by auto
    with pk_booking_same[OF pk hmem bmem] bid have "booking_id ?h \<noteq> bookingId" by auto
    moreover from findWithRoomByUserId_fk[OF fk False] x
    have "\<exists>r. x = Some \<lparr>bwr_id = booking_id ?h, Room = r\<rparr>" by auto
    ultimately show ?thesis by auto
  qed
  from findWithRoomByUserId_resolves[OF fk] obtain x
    where x: "fst (findWithRoomByUserId userId s) = Inr x" by blast
  show ?thesis
    using notmine[OF x]
    by (simp add: updateBooking_unfold fb x findRoomById_def query_def split: option.splits)
qed

theorem ownership_failure_witness:
  "pk_booking demo_store \<and> fk_booking_room demo_store \<and>
   fst (findById 1 demo_store) =
     Inr (Some \<lparr>booking_id = 1, booking_userId = 2, booking_roomId = 1\<rparr>) \<and>
   updateBooking 1 1 2 demo_store = (Inl ForbiddenError, demo_store) \<and>
   updateBooking 1 1 99 demo_store = (Inl NotFoundError, demo_store)"
proof -
  have pk: "pk_booking demo_store"
    by (simp add: pk_booking_def demo_defs)
  have fk: "fk_booking_room demo_store"
    by (simp add: fk_booking_room_def demo_defs)
  have b: "fst (findById 1 demo_store) =
     Inr (Some \<lparr>booking_id = 1, booking_userId = 2, booking_roomId = 1\<rparr>)"
    by (simp add: findById_def query_def demo_defs)
  have a: "userAllowed demo_store 1"
    by (simp add: userAllowed_def run_defs demo_defs)
  have r2: "fst (findRoomById 2 demo_store) \<noteq> Inr None"
    and r99: "fst (findRoomById 99 demo_store) = Inr None"
    by (simp_all add: findRoomById_def query_def demo_defs)
  from pk fk b a r2 r99
    ownership_failure[OF pk fk b, of 1 2] ownership_failure[OF pk fk b, of 1 99]
  show ?thesis by simp
qed

text \<open>
  The claim as stated, "fails with AuthorizationDenied regardless of \<open>r\<close>", fails here:
  booking 1 exists and belongs to user 2, user 1 is allowed, and no room has id 99; the
  operation reports \<open>NotFoundError\<close>.
\<close>

theorem ownership_counterexample:
  "fst (findById 1 demo_store) =
     Inr (Some \<lparr>booking_id = 1, booking_userId = 2, booking_roomId = 1\<rparr>) \<and>
   userAllowed demo_store 1 \<and>
   fst (findRoomById 99 demo_store) = Inr None \<and>
   fst (updateBooking 1 1 99 demo_store) = Inl NotFoundError \<and>
   fst (updateBooking 1 1 99 demo_store) \<noteq> Inl ForbiddenError"
  by (simp add: userAllowed_def run_defs demo_defs)


section \<open>Creating a booking\<close>

text \<open>
  C3. For every allowed user with no booking and every \<open>roomId\<close> that identifies an
  existing room with fewer bookings than its capacity, \<open>createBooking(userId, roomId)\<close>
  succeeds; it returns \<open>{ bookingId }\<close> with the id of the row it inserted; in the store
  it leaves, the bookings are the previous bookings, unchanged, followed by the new
  row, the new row is the one booking of the user and points at \<open>roomId\<close>, and the
  other tables are as before. Room ids start at 1.
\<close>

theorem createBooking_success:
  assumes ids: "room_ids_positive s"
    and allowed: "userAllowed s userId"
    and nobooking: "bookingsOfUser s userId = []"
    and room: "fst (findRoomById roomId s) = Inr (Some room)"
    and free: "int (bookingsOnRoom s roomId) < capacity room"
  shows "\<exists>new s'. createBooking userId roomId s = (Inr \<lparr>resp_bookingId = booking_id new\<rparr>, s') \<and>
           booking_userId new = userId \<and> booking_roomId new = roomId \<and>
           bookings s' = bookings s @ [new] \<and>
           bookingsOfUser s' userId = [new] \<and>
           rooms s' = rooms s \<and> enrollments s' = enrollments s \<and> tickets s' = tickets s"
proof -
  from room have r: "find (\<lambda>r. room_id r = roomId) (rooms s) = Some room"
    by (simp add: findRoomById_def query_def)
  then have "room \<in> set (rooms s)" "room_id room = roomId"
    by (auto dest: find_Some_mem)
  with ids have pos: "1 \<le> roomId"
    by (auto simp: room_ids_positive_def)
  from nobooking have n: "fst (findWithRoomByUserId userId s) = Inr None"
    by (simp add: findWithRoomByUserId_None)
  let ?new = "\<lparr>booking_id = booking_id_seq s, booking_userId = userId,
               booking_roomId = roomId\<rparr>"
  let ?s' = "s\<lparr>bookings := bookings s @ [?new], booking_id_seq := booking_id_seq s + 1\<rparr>"
  from pos allowed free have "createBooking userId roomId s =
      (Inr \<lparr>resp_bookingId = booking_id ?new\<rparr>, ?s')"
    by (simp add: createBooking_unfold r n)
  moreover from nobooking have "bookingsOfUser ?s' userId = [?new]"
    by (simp add: bookingsOfUser_def)
  ultimately show ?thesis by (intro exI[of _ ?new] exI[of _ ?s']) simp
qed

theorem createBooking_success_witness:
  "room_ids_positive demo_store \<and>
   userAllowed demo_store 1 \<and> bookingsOfUser demo_store 1 = [] \<and>
   fst (findRoomById 2 demo_store) = Inr (Some \<lparr>room_id = 2, capacity = 2, hotelId = 7\<rparr>) \<and>
   int (bookingsOnRoom demo_store 2) < 2 \<and>
   (\<exists>new s'. createBooking 1 2 demo_store = (Inr \<lparr>resp_bookingId = booking_id new\<rparr>, s') \<and>
      booking_userId new = 1 \<and> booking_roomId new = 2 \<and>
      bookings s' = bookings demo_store @ [new] \<and> bookingsOfUser s' 1 = [new])"
proof -
  have p: "room_ids_positive demo_store"
    by (simp add: room_ids_positive_def demo_defs)
  have a: "userAllowed demo_store 1"
    by (simp add: userAllowed_def run_defs demo_defs)
  have n: "bookingsOfUser demo_store 1 = []"
    by (simp add: bookingsOfUser_def demo_defs)
  have r: "fst (findRoomById 2 demo_store) =
             Inr (Some \<lparr>room_id = 2, capacity = 2, hotelId = 7\<rparr>)"
    by (simp add: findRoomById_def query_def demo_defs)
  have f: "int (bookingsOnRoom demo_store 2) <
             capacity \<lparr>room_id = 2, capacity = 2, hotelId = 7\<rparr>"
    by (simp add: bookingsOnRoom_def demo_defs)
  from createBooking_success[OF p a n r f] p a n r f show ?thesis by fastforce
qed

section \<open>Capacity checker\<close>

text \<open>
  C4. \<open>isRoomFull(room)\<close> resolves to \<open>true\<close> exactly when the number of bookings that
  reference \<open>room.id\<close> equals \<open>room.capacity\<close>, and leaves the store as it was. So in a
  store where that number exceeds the capacity it resolves to \<open>false\<close>, and the capacity
  gate lets the request through: \<open>createBooking\<close> into that room succeeds when its other
  gates pass, and so does \<open>updateBooking\<close>.
\<close>

theorem isRoomFull_equality:
  "isRoomFull room s = (Inr (int (bookingsOnRoom s (room_id room)) = capacity room), s) \<and>
   (capacity room < int (bookingsOnRoom s (room_id room)) \<longrightarrow>
      isRoomFull room s = (Inr False, s) \<and>
      (1 \<le> room_id room \<and> userAllowed s userId \<and> bookingsOfUser s userId = [] \<and>
       fst (findRoomById (room_id room) s) = Inr (Some room) \<longrightarrow>
         (\<exists>r. fst (createBooking userId (room_id room) s) = Inr r)) \<and>
      (1 \<le> room_id room \<and> 1 \<le> bookingId \<and> userAllowed s userId \<and>
       fst (findRoomById (room_id room) s) = Inr (Some room) \<and>
       fst (findById bookingId s) = Inr (Some booking) \<and>
       fst (findWithRoomByUserId userId s) = Inr (Some userBooking) \<and>
       bwr_id userBooking = bookingId \<and> booking_roomId booking \<noteq> room_id room \<longrightarrow>
         (\<exists>r. fst (updateBooking userId bookingId (room_id room) s) = Inr r)))"
proof (intro conjI impI)
  show "isRoomFull room s = (Inr (int (bookingsOnRoom s (room_id room)) = capacity room), s)"
    by (rule isRoomFull_run)
next
  assume "capacity room < int (bookingsOnRoom s (room_id room))"
  then show "isRoomFull room s = (Inr False, s)"
    by (simp add: isRoomFull_run)
next
  assume over: "capacity room < int (bookingsOnRoom s (room_id room))"
    and g: "1 \<le> room_id room \<and> userAllowed s userId \<and> bookingsOfUser s userId = [] \<and>
       fst (findRoomById (room_id room) s) = Inr (Some room)"
  then have "fst (findWithRoomByUserId userId s) = Inr None"
    by (simp add: findWithRoomByUserId_None)
  with over g show "\<exists>r. fst (createBooking userId (room_id room) s) = Inr r"
    by (simp add: createBooking_unfold findRoomById_def query_def)
next
  assume over: "capacity room < int (bookingsOnRoom s (room_id room))"
    and g: "1 \<le> room_id room \<and> 1 \<le> bookingId \<and> userAllowed s userId \<and>
       fst (findRoomById (room_id room) s) = Inr (Some room) \<and>
       fst (findById bookingId s) = Inr (Some booking) \<and>
       fst (findWithRoomByUserId userId s) = Inr (Some userBooking) \<and>
       bwr_id userBooking = bookingId \<and> booking_roomId booking \<noteq> room_id room"
  then show "\<exists>r. fst (updateBooking userId bookingId (room_id room) s) = Inr r"
    by (simp add: updateBooking_unfold findRoomById_def findById_def query_def)
qed

theorem isRoomFull_equality_witness:
  "capacity \<lparr>room_id = 1, capacity = 1, hotelId = 7\<rparr>
     < int (bookingsOnRoom overbooked_store 1) \<and>
   isRoomFull \<lparr>room_id = 1, capacity = 1, hotelId = 7\<rparr> overbooked_store
     = (Inr False, overbooked_store) \<and>
   (\<exists>r. fst (createBooking 1 1 overbooked_store) = Inr r) \<and>
   (\<exists>r. fst (updateBooking 2 3 1 overbooked_store) = Inr r)"
proof -
  let ?room = "\<lparr>room_id = 1, capacity = 1, hotelId = 7\<rparr>"
  have over: "capacity ?room < int (bookingsOnRoom overbooked_store (room_id ?room))"
    by (simp add: bookingsOnRoom_def demo_defs)
  have a: "userAllowed overbooked_store 1" "userAllowed overbooked_store 2"
    by (simp_all add: userAllowed_def run_defs demo_defs)
  have n: "bookingsOfUser overbooked_store 1 = []"
    by (simp add: bookingsOfUser_def demo_defs)
  have r: "fst (findRoomById (room_id ?room) overbooked_store) = Inr (Some ?room)"
    by (simp add: findRoomById_def query_def demo_defs)
  have b: "fst (findById 3 overbooked_store) =
             Inr (Some \<lparr>booking_id = 3, booking_userId = 2, booking_roomId = 2\<rparr>)"
    by (simp add: findById_def query_def demo_defs)
  have ub: "fst (findWithRoomByUserId 2 overbooked_store) =
              Inr (Some \<lparr>bwr_id = 3, Room = \<lparr>room_id = 2, capacity = 2, hotelId = 7\<rparr>\<rparr>)"
    by (simp add: findWithRoomByUserId_def demo_defs)
  from isRoomFull_equality[of ?room overbooked_store 1] over a n r
  have c1: "isRoomFull ?room overbooked_store = (Inr False, overbooked_store)"
    and c2: "\<exists>r. fst (createBooking 1 (room_id ?room) overbooked_store) = Inr r"
    by simp_all
  from isRoomFull_equality[of ?room overbooked_store 2 3
      "\<lparr>booking_id = 3, booking_userId = 2, booking_roomId = 2\<rparr>"
      "\<lparr>bwr_id = 3, Room = \<lparr>room_id = 2, capacity = 2, hotelId = 7\<rparr>\<rparr>"] over a r b ub
  have c3: "\<exists>r. fst (updateBooking 2 3 (room_id ?room) overbooked_store) = Inr r"
    by simp
  from over c1 c2 c3 show ?thesis by simp
qed


section \<open>Invariants under sequential execution\<close>

subsection \<open>Capacity\<close>

lemma update_room_count_le:
  "length (filter (\<lambda>b. booking_roomId b = x) (update_room bookingId roomId bs))
     \<le> length (filter (\<lambda>b. booking_roomId b = x) bs) + (if x = roomId then 1 else 0)"
  by (induction bs) auto

lemma update_room_userIds:
  "map booking_userId (update_room bookingId roomId bs) = map booking_userId bs"
  by (induction bs) auto

lemma length_filter_userId:
  "length (filter (\<lambda>b. booking_userId b = u) bs)
     = length (filter (\<lambda>v. v = u) (map booking_userId bs))"
  by (induction bs) auto

lemma pk_room_same:
  assumes "pk_room s" "r \<in> set (rooms s)" "r' \<in> set (rooms s)" "room_id r = room_id r'"
  shows "r = r'"
  using assms by (auto simp: pk_room_def distinct_map dest: inj_onD)

lemma capacity_inv_one_more:
  assumes pk: "pk_room s" and inv: "capacity_inv s"
    and room: "find (\<lambda>r. room_id r = roomId) (rooms s) = Some room"
    and notfull: "int (bookingsOnRoom s roomId) \<noteq> capacity room"
    and rooms: "rooms s' = rooms s"
    and count: "\<And>x. bookingsOnRoom s' x \<le> bookingsOnRoom s x + (if x = roomId then 1 else 0)"
  shows "capacity_inv s'"
  unfolding capacity_inv_def
proof
  fix r assume "r \<in> set (rooms s')"
  with rooms have rmem: "r \<in> set (rooms s)" by simp
  with inv have le: "int (bookingsOnRoom s (room_id r)) \<le> capacity r"
    by (simp add: capacity_inv_def)
  show "int (bookingsOnRoom s' (room_id r)) \<le> capacity r"
  proof (cases "room_id r = roomId")
    case True
    from room have "room \<in> set (rooms s)" "room_id room = roomId"
      by (auto dest: find_Some_mem)
    with pk_room_same[OF pk rmem] True have "r = room" by simp
    with le notfull True have "int (bookingsOnRoom s roomId) < capacity r" by simp
    with count[of roomId] True show ?thesis by simp
  next
    case False
    with count[of "room_id r"] le show ?thesis by simp
  qed
qed

lemma createBooking_capacity_inv:
  assumes "pk_room s" "capacity_inv s"
  shows "capacity_inv (snd (createBooking userId roomId s))"
proof (cases "fst (createBooking userId roomId s)")
  case (Inl e)
  then have "snd (createBooking userId roomId s) = s"
    by (simp add: createBooking_unfold split: sum.splits option.splits if_splits)
  with assms show ?thesis by simp
next
  case (Inr v)
  let ?s' = "s\<lparr>bookings := bookings s @
                [\<lparr>booking_id = booking_id_seq s, booking_userId = userId,
                  booking_roomId = roomId\<rparr>],
              booking_id_seq := booking_id_seq s + 1\<rparr>"
  from Inr obtain room where room: "find (\<lambda>r. room_id r = roomId) (rooms s) = Some room"
    and notfull: "int (bookingsOnRoom s roomId) \<noteq> capacity room"
    and s': "snd (createBooking userId roomId s) = ?s'"
    by (auto simp: createBooking_unfold split: sum.splits option.splits if_splits)
  have "capacity_inv ?s'"
    by (rule capacity_inv_one_more[OF assms room notfull]) (simp_all add: bookingsOnRoom_def)
  with s' show ?thesis by simp
qed

lemma updateBooking_capacity_inv:
  assumes "pk_room s" "capacity_inv s"
  shows "capacity_inv (snd (updateBooking userId bookingId roomId s))"
proof (cases "fst (updateBooking userId bookingId roomId s)")
  case (Inl e)
  then have "snd (updateBooking userId bookingId roomId s) = s"
    by (auto simp: updateBooking_unfold split: sum.splits option.splits if_splits)
  with assms show ?thesis by simp
next
  case (Inr v)
  let ?s' = "s\<lparr>bookings := update_room bookingId roomId (bookings s)\<rparr>"
  from Inr obtain room where room: "find (\<lambda>r. room_id r = roomId) (rooms s) = Some room"
    and notfull: "int (bookingsOnRoom s roomId) \<noteq> capacity room"
    and s': "snd (updateBooking userId bookingId roomId s) = ?s'"
    by (auto simp: updateBooking_unfold split: sum.splits option.splits if_splits)
  have "capacity_inv ?s'"
    by (rule capacity_inv_one_more[OF assms room notfull])
       (simp_all add: bookingsOnRoom_def update_room_count_le)
  with s' show ?thesis by simp
qed

lemma getBooking_store: "snd (getBooking userId s) = s"
  by (simp add: getBooking_unfold split: sum.splits option.splits)

text \<open>
  C1. In a store where every room holds at most \<open>capacity\<close> bookings (and \<open>id\<close> is the
  key of \<open>Room\<close>), the store left by one run of \<open>getBooking\<close>, of \<open>createBooking\<close> or of
  \<open>updateBooking\<close>, with any arguments and whether it succeeds or fails, again has at
  most \<open>capacity\<close> bookings in every room.
\<close>

theorem capacity_invariant_preserved:
  assumes "pk_room s" "capacity_inv s"
  shows "capacity_inv (snd (getBooking userId s)) \<and>
         capacity_inv (snd (createBooking userId roomId s)) \<and>
         capacity_inv (snd (updateBooking userId bookingId roomId s))"
  using assms
  by (simp add: getBooking_store createBooking_capacity_inv updateBooking_capacity_inv)

theorem capacity_invariant_preserved_witness:
  "pk_room demo_store \<and> capacity_inv demo_store \<and>
   (\<exists>r. fst (createBooking 1 2 demo_store) = Inr r) \<and>
   capacity_inv (snd (createBooking 1 2 demo_store)) \<and>
   (\<exists>r. fst (updateBooking 2 1 2 demo_store) = Inr r) \<and>
   capacity_inv (snd (updateBooking 2 1 2 demo_store)) \<and>
   capacity_inv (snd (getBooking 2 demo_store))"
proof -
  have pk: "pk_room demo_store"
    by (simp add: pk_room_def demo_defs)
  have inv: "capacity_inv demo_store"
    by (simp add: capacity_inv_def bookingsOnRoom_def demo_defs)
  have c: "\<exists>r. fst (createBooking 1 2 demo_store) = Inr r"
    by (simp add: run_defs demo_defs)
  have u: "\<exists>r. fst (updateBooking 2 1 2 demo_store) = Inr r"
    by (simp add: run_defs demo_defs)
  from pk inv c u
    capacity_invariant_preserved[OF pk inv, where userId = 1 and roomId = 2]
    capacity_invariant_preserved[OF pk inv, where userId = 2 and bookingId = 1 and roomId = 2]
  show ?thesis by simp
qed


subsection \<open>One booking per user\<close>

lemma createBooking_single_booking:
  assumes "\<forall>u. length (bookingsOfUser s u) \<le> 1"
  shows "length (bookingsOfUser (snd (createBooking userId roomId s)) u) \<le> 1"
proof (cases "fst (createBooking userId roomId s)")
  case (Inl e)
  then have "snd (createBooking userId roomId s) = s"
    by (simp add: createBooking_unfold split: sum.splits option.splits if_splits)
  with assms show ?thesis by simp
next
  case (Inr v)
  let ?s' = "s\<lparr>bookings := bookings s @
                [\<lparr>booking_id = booking_id_seq s, booking_userId = userId,
                  booking_roomId = roomId\<rparr>],
              booking_id_seq := booking_id_seq s + 1\<rparr>"
  from Inr have none: "fst (findWithRoomByUserId userId s) = Inr None"
    and s': "snd (createBooking userId roomId s) = ?s'"
    by (auto simp: createBooking_unfold split: sum.splits option.splits if_splits)
  from none have "bookingsOfUser s userId = []"
    by (simp add: findWithRoomByUserId_None)
  with assms[rule_format, of u] have "length (bookingsOfUser ?s' u) \<le> 1"
    by (cases "u = userId") (auto simp: bookingsOfUser_def)
  with s' show ?thesis by simp
qed

lemma updateBooking_single_booking:
  assumes "\<forall>u. length (bookingsOfUser s u) \<le> 1"
  shows "length (bookingsOfUser (snd (updateBooking userId bookingId roomId s)) u) \<le> 1"
proof (cases "fst (updateBooking userId bookingId roomId s)")
  case (Inl e)
  then have "snd (updateBooking userId bookingId roomId s) = s"
    by (auto simp: updateBooking_unfold split: sum.splits option.splits if_splits)
  with assms show ?thesis by simp
next
  case (Inr v)
  let ?s' = "s\<lparr>bookings := update_room bookingId roomId (bookings s)\<rparr>"
  from Inr have s': "snd (updateBooking userId bookingId roomId s) = ?s'"
    by (auto simp: updateBooking_unfold split: sum.splits option.splits if_splits)
  have "length (bookingsOfUser ?s' u) = length (bookingsOfUser s u)"
    by (simp add: bookingsOfUser_def length_filter_userId update_room_userIds)
  with assms s' show ?thesis by simp
qed

text \<open>
  C7. In a store where every user has at most one booking, the store left by one run of
  \<open>getBooking\<close>, of \<open>createBooking\<close> or of \<open>updateBooking\<close>, with any arguments and
  whether it succeeds or fails, again has at most one booking per user.
\<close>

theorem single_booking_invariant_preserved:
  assumes "\<forall>u. length (bookingsOfUser s u) \<le> 1"
  shows "(\<forall>u. length (bookingsOfUser (snd (getBooking userId s)) u) \<le> 1) \<and>
         (\<forall>u. length (bookingsOfUser (snd (createBooking userId roomId s)) u) \<le> 1) \<and>
         (\<forall>u. length (bookingsOfUser (snd (updateBooking userId bookingId roomId s)) u) \<le> 1)"
proof (intro conjI allI)
  fix u
  from assms show "length (bookingsOfUser (snd (getBooking userId s)) u) \<le> 1"
    by (simp add: getBooking_store)
  from assms show "length (bookingsOfUser (snd (createBooking userId roomId s)) u) \<le> 1"
    by (rule createBooking_single_booking)
  from assms
  show "length (bookingsOfUser (snd (updateBooking userId bookingId roomId s)) u) \<le> 1"
    by (rule updateBooking_single_booking)
qed

theorem single_booking_invariant_preserved_witness:
  "(\<forall>u. length (bookingsOfUser demo_store u) \<le> 1) \<and>
   (\<exists>r. fst (createBooking 1 2 demo_store) = Inr r) \<and>
   (\<forall>u. length (bookingsOfUser (snd (createBooking 1 2 demo_store)) u) \<le> 1) \<and>
   (\<exists>r. fst (updateBooking 2 1 2 demo_store) = Inr r) \<and>
   (\<forall>u. length (bookingsOfUser (snd (updateBooking 2 1 2 demo_store)) u) \<le> 1) \<and>
   (\<forall>u. length (bookingsOfUser (snd (getBooking 2 demo_store)) u) \<le> 1) \<and>
   fst (createBooking 2 2 demo_store) = Inl ForbiddenError"
proof -
  have inv: "\<forall>u. length (bookingsOfUser demo_store u) \<le> 1"
    by (simp add: bookingsOfUser_def demo_defs)
  have c: "\<exists>r. fst (createBooking 1 2 demo_store) = Inr r"
    by (simp add: run_defs demo_defs)
  have u: "\<exists>r. fst (updateBooking 2 1 2 demo_store) = Inr r"
    by (simp add: run_defs demo_defs)
  have d: "fst (createBooking 2 2 demo_store) = Inl ForbiddenError"
    by (simp add: run_defs demo_defs)
  from inv c u d
    single_booking_invariant_preserved[OF inv, where userId = 1 and roomId = 2]
    single_booking_invariant_preserved[OF inv, where userId = 2 and bookingId = 1
      and roomId = 2]
  show ?thesis by simp
qed


subsection \<open>The schema constraints\<close>

text \<open>The operations keep the store within the schema, and write to no table other
  than the bookings.\<close>

lemma update_room_ids:
  "map booking_id (update_room bookingId roomId bs) = map booking_id bs"
  by (induction bs) auto

lemma update_room_mem:
  "x \<in> set (update_room bookingId roomId bs) \<Longrightarrow> x \<in> set bs \<or> booking_roomId x = roomId"
  by (induction bs) (auto split: if_splits)

lemma createBooking_result:
  "(\<exists>e. createBooking userId roomId s = (Inl e, s)) \<or>
   (\<exists>room. find (\<lambda>r. room_id r = roomId) (rooms s) = Some room \<and>
      int (bookingsOnRoom s roomId) \<noteq> capacity room \<and>
      fst (findWithRoomByUserId userId s) = Inr None \<and>
      createBooking userId roomId s =
        (Inr \<lparr>resp_bookingId = booking_id_seq s\<rparr>,
         s\<lparr>bookings := bookings s @
              [\<lparr>booking_id = booking_id_seq s, booking_userId = userId,
                booking_roomId = roomId\<rparr>],
           booking_id_seq := booking_id_seq s + 1\<rparr>))"
  by (simp add: createBooking_unfold split: sum.splits option.splits)

lemma updateBooking_result:
  "(\<exists>e. updateBooking userId bookingId roomId s = (Inl e, s)) \<or>
   (\<exists>room. find (\<lambda>r. room_id r = roomId) (rooms s) = Some room \<and>
      int (bookingsOnRoom s roomId) \<noteq> capacity room \<and>
      updateBooking userId bookingId roomId s =
        (Inr \<lparr>resp_bookingId = bookingId\<rparr>,
         s\<lparr>bookings := update_room bookingId roomId (bookings s)\<rparr>))"
  by (simp add: updateBooking_unfold split: sum.splits option.splits)

lemma createBooking_cases:
  obtains (fails) e where "createBooking userId roomId s = (Inl e, s)"
  | (succeeds) room where "find (\<lambda>r. room_id r = roomId) (rooms s) = Some room"
      "int (bookingsOnRoom s roomId) \<noteq> capacity room"
      "fst (findWithRoomByUserId userId s) = Inr None"
      "createBooking userId roomId s =
         (Inr \<lparr>resp_bookingId = booking_id_seq s\<rparr>,
          s\<lparr>bookings := bookings s @
               [\<lparr>booking_id = booking_id_seq s, booking_userId = userId,
                 booking_roomId = roomId\<rparr>],
            booking_id_seq := booking_id_seq s + 1\<rparr>)"
  using createBooking_result[of userId roomId s] by blast

lemma updateBooking_cases:
  obtains (fails) e where "updateBooking userId bookingId roomId s = (Inl e, s)"
  | (succeeds) room where "find (\<lambda>r. room_id r = roomId) (rooms s) = Some room"
      "int (bookingsOnRoom s roomId) \<noteq> capacity room"
      "updateBooking userId bookingId roomId s =
         (Inr \<lparr>resp_bookingId = bookingId\<rparr>,
          s\<lparr>bookings := update_room bookingId roomId (bookings s)\<rparr>)"
  using updateBooking_result[of userId bookingId roomId s] by blast

lemma read_only_tables:
  "rooms (snd (getBooking userId s)) = rooms s \<and>
   rooms (snd (createBooking userId roomId s)) = rooms s \<and>
   rooms (snd (updateBooking userId bookingId roomId s)) = rooms s \<and>
   enrollments (snd (createBooking userId roomId s)) = enrollments s \<and>
   enrollments (snd (updateBooking userId bookingId roomId s)) = enrollments s \<and>
   tickets (snd (createBooking userId roomId s)) = tickets s \<and>
   tickets (snd (updateBooking userId bookingId roomId s)) = tickets s"
  by (cases userId roomId s rule: createBooking_cases;
      cases userId bookingId roomId s rule: updateBooking_cases)
     (simp_all add: getBooking_store)

lemma createBooking_wf:
  assumes "wf_store s"
  shows "wf_store (snd (createBooking userId roomId s))"
proof (cases userId roomId s rule: createBooking_cases)
  case (fails e)
  with assms show ?thesis by simp
next
  case (succeeds room)
  from succeeds(1) have "roomId \<in> set (map room_id (rooms s))"
    by (auto dest: find_Some_mem)
  with assms succeeds(4) show ?thesis
    by (auto simp: wf_store_def pk_booking_def pk_room_def fk_booking_room_def)
qed

lemma updateBooking_wf:
  assumes "wf_store s"
  shows "wf_store (snd (updateBooking userId bookingId roomId s))"
proof (cases userId bookingId roomId s rule: updateBooking_cases)
  case (fails e)
  with assms show ?thesis by simp
next
  case (succeeds room)
  let ?bs = "update_room bookingId roomId (bookings s)"
  from succeeds(1) have r: "roomId \<in> set (map room_id (rooms s))"
    by (auto dest: find_Some_mem)
  have fk: "booking_roomId x \<in> set (map room_id (rooms s))" if "x \<in> set ?bs" for x
    using update_room_mem[OF that] r assms by (auto simp: wf_store_def fk_booking_room_def)
  have seq: "booking_id x < booking_id_seq s" if "x \<in> set ?bs" for x
  proof -
    from that have "booking_id x \<in> set (map booking_id ?bs)" by simp
    then have "booking_id x \<in> set (map booking_id (bookings s))"
      by (simp only: update_room_ids)
    with assms show ?thesis by (auto simp: wf_store_def)
  qed
  from assms succeeds(3) fk seq show ?thesis
    by (simp add: wf_store_def pk_booking_def pk_room_def fk_booking_room_def update_room_ids)
qed

lemma wf_store_preserved:
  assumes "wf_store s"
  shows "wf_store (snd (getBooking userId s)) \<and>
         wf_store (snd (createBooking userId roomId s)) \<and>
         wf_store (snd (updateBooking userId bookingId roomId s))"
  using assms by (simp add: getBooking_store createBooking_wf updateBooking_wf)

lemma wf_demo_store: "wf_store demo_store"
  by (simp add: wf_store_def pk_booking_def pk_room_def fk_booking_room_def demo_defs)

end
